theory Spec2Isabelle
  imports Main "HOL-Library.Finite_Map"
begin

section \<open>Values of the widget toolkit\<close>

text \<open>
  \<open>QVariant\<close> is the toolkit's dynamically typed value. The editor stores and reads
  booleans, strings, string lists and nested maps through it; a default-constructed
  variant is \<open>Invalid\<close>. A \<open>QVariantMap\<close> maps each key to at most one value.
\<close>

datatype QVariant =
    Invalid
  | VBool bool
  | VString string
  | VStringList "string list"
  | VMap "(string, QVariant) fmap"

type_synonym QVariantMap = "(string, QVariant) fmap"

text \<open>\<open>QChar::toLower\<close> on the ASCII letters, which is all \<open>toBool\<close> looks at.\<close>

definition toLower :: "char \<Rightarrow> char" where
  "toLower c =
     (let n = (of_char c :: nat)
      in if 65 \<le> n \<and> n \<le> 90 then char_of (n + 32) else c)"

text \<open>
  \<open>QVariant::toBool\<close>: a boolean is itself, a string is true unless its lower-case
  content is empty, \<open>0\<close> or \<open>false\<close>, every other variant here is false.
\<close>

fun toBool :: "QVariant \<Rightarrow> bool" where
  "toBool (VBool b) = b"
| "toBool (VString s) = (map toLower s \<notin> {'''', ''0'', ''false''})"
| "toBool _ = False"

text \<open>\<open>QVariant::toMap\<close>: the map of a map variant, the empty map otherwise.\<close>

fun toMap :: "QVariant \<Rightarrow> QVariantMap" where
  "toMap (VMap m) = m"
| "toMap _ = fmempty"

text \<open>
  \<open>QVariant::toStringList\<close>: the list of a string-list variant, the one-element list
  of a string variant, the empty list otherwise.
\<close>

fun toStringList :: "QVariant \<Rightarrow> string list" where
  "toStringList (VStringList l) = l"
| "toStringList (VString s) = [s]"
| "toStringList _ = []"

text \<open>
  \<open>QVariantMap::operator[]\<close> on a constant map and \<open>QVariantMap::value\<close>: the value
  stored under the key, a default-constructed variant when the key is missing.
\<close>

definition value_at :: "QVariantMap \<Rightarrow> string \<Rightarrow> QVariant" where
  "value_at m k = (case fmlookup m k of None \<Rightarrow> Invalid | Some v \<Rightarrow> v)"

definition contains :: "QVariantMap \<Rightarrow> string \<Rightarrow> bool" where
  "contains m k = (fmlookup m k \<noteq> None)"

text \<open>\<open>QVariantMap::insert\<close> replaces the value of a key that is already there.\<close>

definition insert_value :: "string \<Rightarrow> QVariant \<Rightarrow> QVariantMap \<Rightarrow> QVariantMap" where
  "insert_value k v m = fmupd k v m"

subsection \<open>String lists\<close>

text \<open>
  \<open>QStringList::indexOf\<close> is the position of the first equal element, or \<open>-1\<close>;
  \<open>removeAt\<close> does nothing at a position outside the list; \<open>mid pos len\<close> is the
  sublist of at most \<open>len\<close> elements from \<open>pos\<close> (all of them when \<open>len\<close> is negative).
\<close>

fun indexOf :: "'a list \<Rightarrow> 'a \<Rightarrow> int" where
  "indexOf [] x = -1"
| "indexOf (y # ys) x =
     (if y = x then 0
      else (let i = indexOf ys x in if i = -1 then -1 else i + 1))"

definition removeAt :: "'a list \<Rightarrow> int \<Rightarrow> 'a list" where
  "removeAt xs i =
     (if 0 \<le> i \<and> i < int (length xs)
      then take (nat i) xs @ drop (Suc (nat i)) xs
      else xs)"

definition push_front :: "'a list \<Rightarrow> 'a \<Rightarrow> 'a list" where
  "push_front xs x = x # xs"

definition mid :: "'a list \<Rightarrow> int \<Rightarrow> int \<Rightarrow> 'a list" where
  "mid xs pos len =
     (let rest = drop (nat pos) xs
      in if len < 0 then rest else take (nat len) rest)"

section \<open>Menu descriptor and abstract menu\<close>

text \<open>The menu items that \<open>CEditor\<close> names (the enumeration \<open>CEditor::MenuItems\<close>).\<close>

datatype MenuItems =
    FileMenu | New | NewFolder | Open | Close | Save | SaveAs | RecentFiles
  | EditMenu | Undo | Redo | Copy | Cut | Paste | Rename | Delete
  | Find | FindPrevious | FindNext | SelectAll | Duplicate
  | ViewMenu | ZoomIn | ZoomOut
  | ToolBarMenu | WindowMenu | HelpMenu | Help

text \<open>
  A descriptor node is a menu (key, section, priority, name, children) or an action
  (key, section, priority, command of the bound action), as \<open>InitMenuDesc\<close> writes them.
\<close>

datatype 'k MenuDescItem =
    AddMenu 'k int int string "'k MenuDescItem list"
  | AddAction 'k int int string

text \<open>
  \<open>CEditor::InitMenuDesc\<close>. The constant \<open>CAbstractMenu::ePriorities_Append\<close> is
  declared outside the sources and is a parameter here.
\<close>

definition InitMenuDesc :: "int \<Rightarrow> MenuItems MenuDescItem list" where
  "InitMenuDesc ePriorities_Append =
    [AddMenu FileMenu 0 0 ''File''
       [AddAction New 0 0 ''general.new'',
        AddAction NewFolder 0 1 ''general.new_folder'',
        AddAction Open 0 2 ''general.open'',
        AddAction Close 0 3 ''general.close'',
        AddAction Save 0 4 ''general.save'',
        AddAction SaveAs 0 5 ''general.save_as'',
        AddMenu RecentFiles 0 6 ''Recent Files'' []],
     AddMenu EditMenu 0 1 ''Edit''
       [AddAction Undo 0 0 ''general.undo'',
        AddAction Redo 0 1 ''general.redo'',
        AddAction Copy 1 0 ''general.copy'',
        AddAction Cut 1 1 ''general.cut'',
        AddAction Paste 1 2 ''general.paste'',
        AddAction Rename 1 3 ''general.rename'',
        AddAction Delete 1 4 ''general.delete'',
        AddAction Find 2 0 ''general.find'',
        AddAction FindPrevious 2 1 ''general.find_previous'',
        AddAction FindNext 2 2 ''general.find_next'',
        AddAction SelectAll 2 3 ''general.select_all'',
        AddAction Duplicate 3 0 ''general.duplicate''],
     AddMenu ViewMenu 0 2 ''View''
       [AddAction ZoomIn 0 0 ''general.zoom_in'',
        AddAction ZoomOut 0 1 ''general.zoom_out''],
     AddMenu ToolBarMenu 0 10 ''Toolbars'' [],
     AddMenu WindowMenu 0 20 ''Window'' [],
     AddMenu HelpMenu 1 ePriorities_Append ''Help''
       [AddAction Help 0 0 ''general.help'']]"

text \<open>
  Modelled from the spec: the descriptor class \<open>MenuDesc::CDesc\<close> is not among the
  sources. Resolution of a key is structural: the first node with that key, searching
  each menu before its later siblings.
\<close>

fun FindItem :: "'k \<Rightarrow> 'k MenuDescItem \<Rightarrow> 'k MenuDescItem option"
  and FindItems :: "'k \<Rightarrow> 'k MenuDescItem list \<Rightarrow> 'k MenuDescItem option" where
  "FindItem k (AddAction k' s p a) = (if k' = k then Some (AddAction k' s p a) else None)"
| "FindItem k (AddMenu k' s p n cs) =
     (if k' = k then Some (AddMenu k' s p n cs) else FindItems k cs)"
| "FindItems k [] = None"
| "FindItems k (i # rest) =
     (case FindItem k i of Some r \<Rightarrow> Some r | None \<Rightarrow> FindItems k rest)"

text \<open>
  Modelled from the spec: a descriptor entry is a tagged variant; this is the test that
  the entry found for a key is there and is a menu node.
\<close>

fun IsMenu :: "'k MenuDescItem option \<Rightarrow> bool" where
  "IsMenu (Some (AddMenu k s p n cs)) = True"
| "IsMenu _ = False"

text \<open>
  Modelled from the spec: \<open>CDesc::GetMenuName\<close> is not among the sources. It is the
  name of the entry when the entry is a menu, and the empty string when the item is not
  a menu.
\<close>

fun GetMenuName :: "'k MenuDescItem list \<Rightarrow> 'k \<Rightarrow> string" where
  "GetMenuName desc item =
     (case FindItems item desc of
        Some (AddMenu k s p name cs) \<Rightarrow> name
      | _ \<Rightarrow> '''')"

text \<open>
  Modelled from the spec: the class \<open>CAbstractMenu\<close> is not among the sources. It is
  a mutable tree of named menus, each holding its submenus and the commands of its
  actions.
\<close>

datatype CAbstractMenu =
  AbstractMenu (GetName: string) (subMenus: "CAbstractMenu list") (menuActions: "string list")

text \<open>
  Modelled from the spec: \<open>CAbstractMenu::FindMenuRecursive\<close> is not among the
  sources. It searches the tree depth first for a submenu of the given name.
\<close>

fun FindMenuRecursive :: "string \<Rightarrow> CAbstractMenu \<Rightarrow> CAbstractMenu option"
  and FindMenuRecursive_in :: "string \<Rightarrow> CAbstractMenu list \<Rightarrow> CAbstractMenu option" where
  "FindMenuRecursive name (AbstractMenu n subs acts) = FindMenuRecursive_in name subs"
| "FindMenuRecursive_in name [] = None"
| "FindMenuRecursive_in name (m # rest) =
     (if GetName m = name then Some m
      else (case FindMenuRecursive name m of
              Some r \<Rightarrow> Some r
            | None \<Rightarrow> FindMenuRecursive_in name rest))"

section \<open>Editor state\<close>

datatype Orientation = Horizontal | Vertical

text \<open>A null pointer that is dereferenced ends the call.\<close>

datatype error = NullDereference

record QCommandAction =
  command :: string
  checked :: bool

definition setChecked :: "bool \<Rightarrow> QCommandAction \<Rightarrow> QCommandAction" where
  "setChecked b a = a\<lparr>checked := b\<rparr>"

text \<open>
  Modelled from the spec: the class \<open>CDockableContainer\<close> (the docking registry) is
  not among the sources. It holds its layout state, the menu it was given and whether
  a default-layout callback was set.
\<close>

record CDockableContainer =
  dockingState :: QVariantMap
  dockMenu :: "CAbstractMenu option"
  hasDefaultLayoutCallback :: bool

text \<open>
  Modelled from the spec: the constructor of \<open>CDockableContainer\<close>, which takes the
  persisted layout to start from.
\<close>

definition CDockableContainer_new :: "QVariantMap \<Rightarrow> CDockableContainer" where
  "CDockableContainer_new startingLayout =
     \<lparr>dockingState = startingLayout, dockMenu = None, hasDefaultLayoutCallback = False\<rparr>"

text \<open>
  Modelled from the spec: \<open>CDockableContainer::SetState\<close> restores the layout state
  from a map.
\<close>

definition CDockableContainer_SetState :: "QVariantMap \<Rightarrow> CDockableContainer \<Rightarrow> CDockableContainer" where
  "CDockableContainer_SetState s d = d\<lparr>dockingState := s\<rparr>"

text \<open>
  Modelled from the spec: \<open>CDockableContainer::GetState\<close> saves the layout state as
  a map, which is the map restored last.
\<close>

definition CDockableContainer_GetState :: "CDockableContainer \<Rightarrow> QVariantMap" where
  "CDockableContainer_GetState d = dockingState d"

text \<open>
  Modelled from the spec: \<open>CDockableContainer::SetDefaultLayoutCallback\<close> records
  the callback to use when no layout was persisted.
\<close>

definition SetDefaultLayoutCallback :: "CDockableContainer \<Rightarrow> CDockableContainer" where
  "SetDefaultLayoutCallback d = d\<lparr>hasDefaultLayoutCallback := True\<rparr>"

text \<open>
  Modelled from the spec: \<open>CDockableContainer::SetMenu\<close> hands the registry the menu
  that lists its panels (possibly null).
\<close>

definition SetMenu :: "CAbstractMenu option \<Rightarrow> CDockableContainer \<Rightarrow> CDockableContainer" where
  "SetMenu m d = d\<lparr>dockMenu := m\<rparr>"

text \<open>
  Modelled from the spec: the class \<open>CEditorContent\<close> is not among the sources. It
  holds the widget shown as content (none, the docking registry, or another widget) and
  its own state as a map.
\<close>

datatype Content = NoContent | DockingContent | WidgetContent string

record CEditorContent =
  contentState :: QVariantMap
  content :: Content

text \<open>
  Modelled from the spec: \<open>CEditorContent::SetState\<close> restores the content state
  from a map.
\<close>

definition CEditorContent_SetState :: "QVariantMap \<Rightarrow> CEditorContent \<Rightarrow> CEditorContent" where
  "CEditorContent_SetState s c = c\<lparr>contentState := s\<rparr>"

text \<open>
  Modelled from the spec: \<open>CEditorContent::GetState\<close> saves the content state as a
  map, which is the map restored last.
\<close>

definition CEditorContent_GetState :: "CEditorContent \<Rightarrow> QVariantMap" where
  "CEditorContent_GetState c = contentState c"

text \<open>
  Modelled from the spec: \<open>CEditorContent::SetContent\<close> replaces the widget shown as
  content.
\<close>

definition CEditorContent_SetContent :: "Content \<Rightarrow> CEditorContent \<Rightarrow> CEditorContent" where
  "CEditorContent_SetContent w c = c\<lparr>content := w\<rparr>"

text \<open>
  The members of \<open>CEditor\<close> that the operations below read or write. The values its
  virtual functions return (\<open>GetEditorName\<close>, \<open>SupportsAdaptiveLayout\<close>,
  \<open>GetDefaultOrientation\<close>) are fields that no operation changes; \<open>width\<close> and
  \<open>height\<close> are the geometry of the widget; \<open>signalAdaptiveLayoutChanged\<close> is the
  list of the notifications emitted so far, oldest first. The two property maps are the
  personalization store, keyed by editor name and property name.
\<close>

record CEditor =
  GetEditorName :: string
  SupportsAdaptiveLayout :: bool
  GetDefaultOrientation :: Orientation
  width :: int
  height :: int
  m_pMenuDesc :: "MenuItems MenuDescItem list option"
  m_pMenu :: "CAbstractMenu option"
  m_dockingRegistry :: "CDockableContainer option"
  m_pEditorContent :: "CEditorContent option"
  m_pActionAdaptiveLayout :: "QCommandAction option"
  m_isAdaptiveLayoutEnabled :: bool
  m_currentOrientation :: Orientation
  signalAdaptiveLayoutChanged :: "Orientation list"
  properties :: "string \<times> string \<rightharpoonup> QVariant"
  projectProperties :: "string \<times> string \<rightharpoonup> QVariant"

section \<open>Personalization\<close>

text \<open>
  The personalization manager is not among the sources. The four accessors of the
  editor pass its own name and the property name on to it.
\<close>

text \<open>
  Modelled from the spec: the manager's \<open>GetProperty\<close> reads the per-editor store;
  a key that was never set gives the invalid variant, not an error.
\<close>

definition GetProperty :: "string \<Rightarrow> CEditor \<Rightarrow> QVariant" where
  "GetProperty propName ed =
     (case properties ed (GetEditorName ed, propName) of None \<Rightarrow> Invalid | Some v \<Rightarrow> v)"

text \<open>
  Modelled from the spec: the manager's \<open>SetProperty\<close> stores or overwrites the
  value of the key in the per-editor store.
\<close>

definition SetProperty :: "string \<Rightarrow> QVariant \<Rightarrow> CEditor \<Rightarrow> CEditor" where
  "SetProperty propName v ed =
     ed\<lparr>properties := (properties ed)((GetEditorName ed, propName) \<mapsto> v)\<rparr>"

text \<open>
  Modelled from the spec: the manager's \<open>GetProjectProperty\<close> reads the per-project
  store; a key that was never set gives the invalid variant, not an error.
\<close>

definition GetProjectProperty :: "string \<Rightarrow> CEditor \<Rightarrow> QVariant" where
  "GetProjectProperty propName ed =
     (case projectProperties ed (GetEditorName ed, propName) of None \<Rightarrow> Invalid | Some v \<Rightarrow> v)"

text \<open>
  Modelled from the spec: the manager's \<open>SetProjectProperty\<close> stores or overwrites
  the value of the key in the per-project store.
\<close>

definition SetProjectProperty :: "string \<Rightarrow> QVariant \<Rightarrow> CEditor \<Rightarrow> CEditor" where
  "SetProjectProperty propName v ed =
     ed\<lparr>projectProperties := (projectProperties ed)((GetEditorName ed, propName) \<mapsto> v)\<rparr>"

text \<open>\<open>CEditor::OnLayoutChange\<close> stores the layout of the docking registry.\<close>

definition OnLayoutChange :: "QVariantMap \<Rightarrow> CEditor \<Rightarrow> CEditor" where
  "OnLayoutChange state ed = SetProperty ''dockLayout'' (VMap state) ed"

section \<open>Recent files\<close>

definition s_maxRecentFiles :: int where
  "s_maxRecentFiles = 10"

definition GetRecentFiles :: "CEditor \<Rightarrow> string list" where
  "GetRecentFiles ed = toStringList (GetProjectProperty ''Recent Files'' ed)"

definition AddRecentFile :: "string \<Rightarrow> CEditor \<Rightarrow> CEditor" where
  "AddRecentFile filePath ed =
     (let recent = GetRecentFiles ed;
          index = indexOf recent filePath;
          recent = (if index > -1 then removeAt recent index else recent);
          recent = push_front recent filePath;
          recent = (if int (length recent) > s_maxRecentFiles
                    then mid recent 0 s_maxRecentFiles else recent)
      in SetProjectProperty ''Recent Files'' (VStringList recent) ed)"

section \<open>Adaptive layout\<close>

text \<open>
  Modelled from the spec: the header that defines \<open>IsAdaptiveLayoutEnabled\<close> is not
  among the sources. Adaptive layout is enabled when the flag of the editor is set, on
  an editor that supports the feature (\<open>resizeEvent\<close> returns early "if adaptive
  layout is disabled or this editor doesn't support adaptive layout").
\<close>

definition IsAdaptiveLayoutEnabled :: "CEditor \<Rightarrow> bool" where
  "IsAdaptiveLayoutEnabled ed = (SupportsAdaptiveLayout ed \<and> m_isAdaptiveLayoutEnabled ed)"

text \<open>\<open>CEditor::OnAdaptiveLayoutChanged\<close> emits the signal with the current orientation.\<close>

definition OnAdaptiveLayoutChanged :: "CEditor \<Rightarrow> CEditor" where
  "OnAdaptiveLayoutChanged ed =
     ed\<lparr>signalAdaptiveLayoutChanged :=
          signalAdaptiveLayoutChanged ed @ [m_currentOrientation ed]\<rparr>"

definition UpdateAdaptiveLayout :: "CEditor \<Rightarrow> CEditor" where
  "UpdateAdaptiveLayout ed =
     (if \<not> IsAdaptiveLayoutEnabled ed
      then OnAdaptiveLayoutChanged (ed\<lparr>m_currentOrientation := GetDefaultOrientation ed\<rparr>)
      else
        (let newOrientation = (if width ed > height ed then Horizontal else Vertical)
         in if newOrientation = m_currentOrientation ed then ed
            else OnAdaptiveLayoutChanged (ed\<lparr>m_currentOrientation := newOrientation\<rparr>)))"

text \<open>
  \<open>CEditor::SetAdaptiveLayoutEnabled\<close>. The action pointer is null until
  \<open>Initialize\<close> has created the action, which it does only on an editor that supports
  adaptive layout.
\<close>

definition SetAdaptiveLayoutEnabled :: "bool \<Rightarrow> CEditor \<Rightarrow> error + CEditor" where
  "SetAdaptiveLayoutEnabled enable ed =
     (if m_isAdaptiveLayoutEnabled ed = enable then Inr ed
      else
        (let ed1 = ed\<lparr>m_isAdaptiveLayoutEnabled := enable\<rparr>
         in case m_pActionAdaptiveLayout ed1 of
              None \<Rightarrow> Inl NullDereference
            | Some a \<Rightarrow>
                Inr (UpdateAdaptiveLayout
                  (ed1\<lparr>m_pActionAdaptiveLayout :=
                         Some (setChecked (m_isAdaptiveLayoutEnabled ed1) a)\<rparr>))))"

text \<open>
  \<open>CEditor::resizeEvent\<close>. The handler of the base class does nothing, and the widget
  already has its new geometry when the handler runs: \<open>resize\<close> is the delivery of a
  resize event to the size \<open>w\<close> by \<open>h\<close>.
\<close>

definition resizeEvent :: "CEditor \<Rightarrow> CEditor" where
  "resizeEvent ed = (if \<not> IsAdaptiveLayoutEnabled ed then ed else UpdateAdaptiveLayout ed)"

definition resize :: "int \<Rightarrow> int \<Rightarrow> CEditor \<Rightarrow> CEditor" where
  "resize w h ed = resizeEvent (ed\<lparr>width := w, height := h\<rparr>)"

section \<open>Layout state\<close>

definition SetLayout :: "QVariantMap \<Rightarrow> CEditor \<Rightarrow> error + CEditor" where
  "SetLayout state ed =
     (case (if contains state ''adaptiveLayout''
            then SetAdaptiveLayoutEnabled (toBool (value_at state ''adaptiveLayout'')) ed
            else Inr ed) of
        Inl e \<Rightarrow> Inl e
      | Inr ed1 \<Rightarrow>
          (let ed2 =
             (case m_dockingRegistry ed1 of
                Some d \<Rightarrow>
                  (if contains state ''dockingState''
                   then ed1\<lparr>m_dockingRegistry :=
                          Some (CDockableContainer_SetState
                                  (toMap (value_at state ''dockingState'')) d)\<rparr>
                   else ed1)
              | None \<Rightarrow> ed1)
           in case m_pEditorContent ed2 of
                None \<Rightarrow> Inl NullDereference
              | Some c \<Rightarrow>
                  Inr (ed2\<lparr>m_pEditorContent :=
                         Some (CEditorContent_SetState
                                 (toMap (value_at state ''editorContent'')) c)\<rparr>)))"

definition GetLayout :: "CEditor \<Rightarrow> error + QVariantMap" where
  "GetLayout ed =
     (let result = fmempty;
          result = (case m_dockingRegistry ed of
                      Some d \<Rightarrow>
                        insert_value ''dockingState'' (VMap (CDockableContainer_GetState d)) result
                    | None \<Rightarrow> result)
      in case m_pEditorContent ed of
           None \<Rightarrow> Inl NullDereference
         | Some c \<Rightarrow>
             Inr (insert_value ''adaptiveLayout'' (VBool (m_isAdaptiveLayoutEnabled ed))
                   (insert_value ''editorContent'' (VMap (CEditorContent_GetState c)) result)))"

text \<open>Restoring a layout state and then saving the layout, as one call after the other.\<close>

definition SetLayout_GetLayout :: "QVariantMap \<Rightarrow> CEditor \<Rightarrow> error + QVariantMap" where
  "SetLayout_GetLayout state ed =
     (case SetLayout state ed of Inl e \<Rightarrow> Inl e | Inr ed' \<Rightarrow> GetLayout ed')"

section \<open>Menus and the docking system\<close>

text \<open>
  \<open>CEditor::GetMenu(MenuItems)\<close>: the menu of an item is looked up by the name the
  descriptor gives it, and is null when that name is empty.
\<close>

definition GetMenu :: "MenuItems \<Rightarrow> CEditor \<Rightarrow> error + CAbstractMenu option" where
  "GetMenu menuItem ed =
     (case m_pMenuDesc ed of
        None \<Rightarrow> Inl NullDereference
      | Some desc \<Rightarrow>
          (let name = GetMenuName desc menuItem
           in if name \<noteq> [] then
                (case m_pMenu ed of
                   None \<Rightarrow> Inl NullDereference
                 | Some menu \<Rightarrow> Inr (FindMenuRecursive name menu))
              else Inr None))"

text \<open>
  \<open>CEditor::AddToMenu(MenuItems)\<close>. \<open>CDesc::AddItem\<close>, which mirrors the entry of an
  item into the abstract menu, is not among the sources and is the parameter \<open>AddItem\<close>.
  For the recent-files item the menu is then fetched and its about-to-show signal is
  connected, which changes none of the state kept here.
\<close>

definition AddToMenu ::
  "(MenuItems MenuDescItem list \<Rightarrow> CAbstractMenu \<Rightarrow> MenuItems \<Rightarrow> CAbstractMenu)
    \<Rightarrow> MenuItems \<Rightarrow> CEditor \<Rightarrow> error + CEditor" where
  "AddToMenu AddItem item ed =
     (case m_pMenuDesc ed of
        None \<Rightarrow> Inl NullDereference
      | Some desc \<Rightarrow>
          (case m_pMenu ed of
             None \<Rightarrow> Inl NullDereference
           | Some menu \<Rightarrow>
               (let ed1 = ed\<lparr>m_pMenu := Some (AddItem desc menu item)\<rparr>
                in if item = RecentFiles then
                     (case GetMenu RecentFiles ed1 of
                        Inl e \<Rightarrow> Inl e
                      | Inr None \<Rightarrow> Inl NullDereference
                      | Inr (Some pRecentFilesMenu) \<Rightarrow> Inr ed1)
                   else Inr ed1)))"

text \<open>\<open>CEditor::SetContent\<close>; its assertion only reports, and changes nothing.\<close>

definition SetContent :: "Content \<Rightarrow> CEditor \<Rightarrow> error + CEditor" where
  "SetContent w ed =
     (case m_pEditorContent ed of
        None \<Rightarrow> Inl NullDereference
      | Some c \<Rightarrow> Inr (ed\<lparr>m_pEditorContent := Some (CEditorContent_SetContent w c)\<rparr>))"

text \<open>
  \<open>CEditor::EnableDockingSystem\<close>. Connecting the layout-change signal of the new
  registry changes none of the state kept here.
\<close>

definition EnableDockingSystem ::
  "(MenuItems MenuDescItem list \<Rightarrow> CAbstractMenu \<Rightarrow> MenuItems \<Rightarrow> CAbstractMenu)
    \<Rightarrow> CEditor \<Rightarrow> error + CEditor" where
  "EnableDockingSystem AddItem ed =
     (if m_dockingRegistry ed \<noteq> None then Inr ed
      else
        (case AddToMenu AddItem WindowMenu ed of
           Inl e \<Rightarrow> Inl e
         | Inr ed1 \<Rightarrow>
             (let registry = CDockableContainer_new (toMap (GetProperty ''dockLayout'' ed1));
                  registry = SetDefaultLayoutCallback registry
              in case GetMenu WindowMenu ed1 of
                   Inl e \<Rightarrow> Inl e
                 | Inr menu \<Rightarrow>
                     SetContent DockingContent
                       (ed1\<lparr>m_dockingRegistry := Some (SetMenu menu registry)\<rparr>))))"

section \<open>A sample editor\<close>

text \<open>
  The state used to instantiate the theorems below: an editor that supports adaptive
  layout, after construction and initialisation (menu descriptor built, help and view
  menus added, adaptive-layout action created and checked, no docking system yet), in a
  container of 100 by 200 with nothing stored in the personalization store.
\<close>

definition sampleEditor :: CEditor where
  "sampleEditor =
     \<lparr>GetEditorName = ''Sample Editor'',
      SupportsAdaptiveLayout = True,
      GetDefaultOrientation = Horizontal,
      width = 100,
      height = 200,
      m_pMenuDesc = Some (InitMenuDesc 1000),
      m_pMenu = Some (AbstractMenu ''''
                       [AbstractMenu ''Help'' [] [''general.help''],
                        AbstractMenu ''View'' [] [''editor.toggle_adaptive_layout'']] []),
      m_dockingRegistry = None,
      m_pEditorContent = Some \<lparr>contentState = fmempty, content = NoContent\<rparr>,
      m_pActionAdaptiveLayout =
        Some \<lparr>command = ''editor.toggle_adaptive_layout'', checked = True\<rparr>,
      m_isAdaptiveLayoutEnabled = True,
      m_currentOrientation = Horizontal,
      signalAdaptiveLayoutChanged = [],
      properties = Map.empty,
      projectProperties = Map.empty\<rparr>"

text \<open>
  A stand-in for \<open>CDesc::AddItem\<close> in the examples: it appends an empty menu with the
  descriptor name of the item to the given menu. \<open>dockedEditor\<close> is the sample editor
  after \<open>EnableDockingSystem\<close>: window menu added, docking registry created with the
  (empty) stored dock layout, the default-layout callback and the window menu, and set
  as the content of the editor.
\<close>

definition sampleAddItem ::
  "MenuItems MenuDescItem list \<Rightarrow> CAbstractMenu \<Rightarrow> MenuItems \<Rightarrow> CAbstractMenu" where
  "sampleAddItem desc menu item =
     AbstractMenu (GetName menu)
       (subMenus menu @ [AbstractMenu (GetMenuName desc item) [] []]) (menuActions menu)"

definition dockedEditor :: CEditor where
  "dockedEditor =
     sampleEditor
       \<lparr>m_pMenu := Some (AbstractMenu ''''
                          [AbstractMenu ''Help'' [] [''general.help''],
                           AbstractMenu ''View'' [] [''editor.toggle_adaptive_layout''],
                           AbstractMenu ''Window'' [] []] []),
        m_dockingRegistry :=
          Some \<lparr>dockingState = fmempty,
                dockMenu = Some (AbstractMenu ''Window'' [] []),
                hasDefaultLayoutCallback = True\<rparr>,
        m_pEditorContent := Some \<lparr>contentState = fmempty, content = DockingContent\<rparr>\<rparr>"

text \<open>
  The layout state with an empty docking state, an empty editor content state and
  adaptive layout switched on.
\<close>

definition sampleLayout :: QVariantMap where
  "sampleLayout =
     fmupd ''adaptiveLayout'' (VBool True)
       (fmupd ''editorContent'' (VMap fmempty)
         (fmupd ''dockingState'' (VMap fmempty) fmempty))"

section \<open>Recent files: capacity, no duplicates, most recent first\<close>

lemma indexOf_notin: "x \<notin> set xs \<Longrightarrow> indexOf xs x = -1"
  by (induction xs) (auto simp: Let_def)

lemma indexOf_in: "x \<in> set xs \<Longrightarrow> 0 \<le> indexOf xs x \<and> indexOf xs x < int (length xs)"
  by (induction xs) (auto simp: Let_def)

lemma removeAt_indexOf: "x \<in> set xs \<Longrightarrow> removeAt xs (indexOf xs x) = remove1 x xs"
proof (induction xs)
  case Nil
  then show ?case by simp
next
  case (Cons y ys)
  show ?case
  proof (cases "y = x")
    case True
    then show ?thesis by (simp add: removeAt_def)
  next
    case False
    with Cons.prems have mem: "x \<in> set ys" by simp
    have rng: "0 \<le> indexOf ys x \<and> indexOf ys x < int (length ys)"
      using indexOf_in [OF mem] .
    have "removeAt ys (indexOf ys x) = remove1 x ys"
      using Cons.IH [OF mem] .
    with rng False show ?thesis
      by (auto simp: removeAt_def Let_def nat_add_distrib)
  qed
qed

text \<open>The search and removal at the head of \<open>AddRecentFile\<close> drop the first equal entry.\<close>

lemma removed_entry:
  "(if indexOf r p > -1 then removeAt r (indexOf r p) else r) = remove1 p r"
proof (cases "p \<in> set r")
  case True
  with indexOf_in [OF True] removeAt_indexOf [OF True] show ?thesis by simp
next
  case False
  then show ?thesis by (simp add: indexOf_notin remove1_idem)
qed

lemma truncated:
  "(if int (length xs) > s_maxRecentFiles then mid xs 0 s_maxRecentFiles else xs) = take 10 xs"
  by (simp add: mid_def s_maxRecentFiles_def)

lemma GetRecentFiles_SetProjectProperty:
  "GetRecentFiles (SetProjectProperty ''Recent Files'' (VStringList l) ed) = l"
  by (simp add: GetRecentFiles_def GetProjectProperty_def SetProjectProperty_def)

lemma GetRecentFiles_AddRecentFile:
  "GetRecentFiles (AddRecentFile p ed) = take 10 (p # remove1 p (GetRecentFiles ed))"
  unfolding AddRecentFile_def Let_def
  by (simp only: removed_entry truncated GetRecentFiles_SetProjectProperty push_front_def)

lemma GetRecentFiles_fold:
  "GetRecentFiles (fold AddRecentFile ps ed) =
     fold (\<lambda>p r. take 10 (p # remove1 p r)) ps (GetRecentFiles ed)"
  by (induction ps arbitrary: ed) (simp_all add: GetRecentFiles_AddRecentFile)

lemma remdups_snoc: "remdups (xs @ [x]) = removeAll x (remdups xs) @ [x]"
  by (induction xs) auto

lemma take_remove1_take: "take n (remove1 p (take (Suc n) xs)) = take n (remove1 p xs)"
proof (induction xs arbitrary: n)
  case Nil
  then show ?case by simp
next
  case (Cons a xs)
  then show ?case by (cases n) auto
qed

text \<open>
  Added to an empty list one after the other, the paths \<open>ps\<close> leave the first ten of
  their most-recent-first order: each path once, at the place of its last addition.
\<close>

lemma fold_add_mru:
  "fold (\<lambda>p r. take 10 (p # remove1 p r)) ps [] = take 10 (rev (remdups ps))"
proof (induction ps rule: rev_induct)
  case Nil
  then show ?case by simp
next
  case (snoc p ps)
  let ?M = "rev (remdups ps)"
  have d: "distinct ?M" by simp
  have "fold (\<lambda>p r. take 10 (p # remove1 p r)) (ps @ [p]) []
          = take 10 (p # remove1 p (take 10 ?M))"
    using snoc.IH by simp
  also have "\<dots> = p # take 9 (remove1 p (take (Suc 9) ?M))" by simp
  also have "\<dots> = p # take 9 (remove1 p ?M)" by (simp only: take_remove1_take)
  also have "\<dots> = take 10 (p # removeAll p ?M)"
    using d by (simp add: distinct_remove1_removeAll)
  also have "\<dots> = take 10 (rev (remdups (ps @ [p])))"
    by (simp add: remdups_snoc removeAll_filter_not_eq rev_filter)
  finally show ?case .
qed

text \<open>
  Claim C1. Starting from an empty recent-files list, after any sequence \<open>ps\<close> of
  \<open>AddRecentFile\<close> calls (in the order of the list) the stored list has at most 10
  entries, no path twice, and is in most-recent-first order: it is the first ten of the
  paths ordered by their last addition, latest first, so the path added last is its head.
\<close>

theorem AddRecentFile_sequence:
  assumes "GetRecentFiles ed = []"
  shows "length (GetRecentFiles (fold AddRecentFile ps ed)) \<le> 10
       \<and> distinct (GetRecentFiles (fold AddRecentFile ps ed))
       \<and> GetRecentFiles (fold AddRecentFile ps ed) = take 10 (rev (remdups ps))
       \<and> (ps \<noteq> [] \<longrightarrow> hd (GetRecentFiles (fold AddRecentFile ps ed)) = last ps)"
proof -
  have eq: "GetRecentFiles (fold AddRecentFile ps ed) = take 10 (rev (remdups ps))"
    by (simp only: GetRecentFiles_fold assms fold_add_mru)
  have hd_last: "hd (take 10 (rev (remdups ps))) = last ps" if "ps \<noteq> []"
  proof -
    from that obtain qs q where ps: "ps = qs @ [q]" by (meson rev_exhaust)
    show ?thesis unfolding ps by (simp add: remdups_snoc)
  qed
  show ?thesis
    unfolding eq using hd_last by simp
qed

theorem AddRecentFile_sequence_witness:
  "GetRecentFiles sampleEditor = []
   \<and> [''a.lvl'', ''b.lvl'', ''a.lvl''] \<noteq> []
   \<and> GetRecentFiles (fold AddRecentFile [''a.lvl'', ''b.lvl'', ''a.lvl''] sampleEditor)
       = [''a.lvl'', ''b.lvl'']
   \<and> hd (GetRecentFiles (fold AddRecentFile [''a.lvl'', ''b.lvl'', ''a.lvl''] sampleEditor))
       = ''a.lvl''"
proof -
  have empty: "GetRecentFiles sampleEditor = []"
    by (simp add: GetRecentFiles_def GetProjectProperty_def sampleEditor_def)
  show ?thesis
    using empty AddRecentFile_sequence [OF empty, of "[''a.lvl'', ''b.lvl'', ''a.lvl'']"]
    by simp
qed

text \<open>
  Whatever list is stored, \<open>AddRecentFile p\<close> leaves a list that starts with \<open>p\<close>
  and has at most 10 entries.
\<close>

lemma AddRecentFile_front_and_capacity:
  "hd (GetRecentFiles (AddRecentFile p ed)) = p
   \<and> length (GetRecentFiles (AddRecentFile p ed)) \<le> 10"
  by (simp add: GetRecentFiles_AddRecentFile)

text \<open>
  Claim C2. A recent-files list holds at most \<open>s_maxRecentFiles\<close> paths (every list
  that \<open>AddRecentFile\<close> stores does). When such a list already contains \<open>p\<close>,
  \<open>AddRecentFile p\<close> moves \<open>p\<close> to the front: the new list starts with \<open>p\<close>, has the
  length the list had before, and keeps the other paths in their order.
\<close>

theorem AddRecentFile_present:
  assumes "p \<in> set (GetRecentFiles ed)"
    and "int (length (GetRecentFiles ed)) \<le> s_maxRecentFiles"
  shows "hd (GetRecentFiles (AddRecentFile p ed)) = p
       \<and> length (GetRecentFiles (AddRecentFile p ed)) = length (GetRecentFiles ed)
       \<and> GetRecentFiles (AddRecentFile p ed) = p # remove1 p (GetRecentFiles ed)"
proof -
  from assms(1) have "length (remove1 p (GetRecentFiles ed)) = length (GetRecentFiles ed) - 1"
    by (simp add: length_remove1)
  moreover from assms(1) have "0 < length (GetRecentFiles ed)"
    by (cases "GetRecentFiles ed") auto
  ultimately have len: "length (p # remove1 p (GetRecentFiles ed)) = length (GetRecentFiles ed)"
    by simp
  with assms(2) have "length (p # remove1 p (GetRecentFiles ed)) \<le> 10"
    by (simp add: s_maxRecentFiles_def)
  then have "GetRecentFiles (AddRecentFile p ed) = p # remove1 p (GetRecentFiles ed)"
    unfolding GetRecentFiles_AddRecentFile by (rule take_all)
  with len show ?thesis by simp
qed

theorem AddRecentFile_present_witness:
  "''b.lvl'' \<in> set (GetRecentFiles (fold AddRecentFile [''b.lvl'', ''c.lvl'', ''a.lvl''] sampleEditor))
   \<and> int (length (GetRecentFiles (fold AddRecentFile [''b.lvl'', ''c.lvl'', ''a.lvl''] sampleEditor)))
       \<le> s_maxRecentFiles
   \<and> GetRecentFiles
       (AddRecentFile ''b.lvl'' (fold AddRecentFile [''b.lvl'', ''c.lvl'', ''a.lvl''] sampleEditor))
       = [''b.lvl'', ''a.lvl'', ''c.lvl'']"
proof -
  have empty: "GetRecentFiles sampleEditor = []"
    by (simp add: GetRecentFiles_def GetProjectProperty_def sampleEditor_def)
  have before: "GetRecentFiles (fold AddRecentFile [''b.lvl'', ''c.lvl'', ''a.lvl''] sampleEditor)
                  = [''a.lvl'', ''c.lvl'', ''b.lvl'']"
    using empty by (simp add: GetRecentFiles_AddRecentFile)
  have mem: "''b.lvl'' \<in> set (GetRecentFiles (fold AddRecentFile [''b.lvl'', ''c.lvl'', ''a.lvl''] sampleEditor))"
    unfolding before by simp
  have cap: "int (length (GetRecentFiles (fold AddRecentFile [''b.lvl'', ''c.lvl'', ''a.lvl''] sampleEditor)))
               \<le> s_maxRecentFiles"
    unfolding before by (simp add: s_maxRecentFiles_def)
  show ?thesis
    using mem cap AddRecentFile_present [OF mem cap] unfolding before by simp
qed

section \<open>Adaptive layout: switching off, resizing, orientation\<close>

lemma SetAdaptiveLayoutEnabled_null_action:
  "m_isAdaptiveLayoutEnabled ed \<noteq> enable \<Longrightarrow> m_pActionAdaptiveLayout ed = None
    \<Longrightarrow> SetAdaptiveLayoutEnabled enable ed = Inl NullDereference"
  by (simp add: SetAdaptiveLayoutEnabled_def Let_def)

lemma UpdateAdaptiveLayout_disabled:
  "\<not> IsAdaptiveLayoutEnabled ed \<Longrightarrow>
     UpdateAdaptiveLayout ed =
       ed\<lparr>m_currentOrientation := GetDefaultOrientation ed,
          signalAdaptiveLayoutChanged :=
            signalAdaptiveLayoutChanged ed @ [GetDefaultOrientation ed]\<rparr>"
  by (simp add: UpdateAdaptiveLayout_def OnAdaptiveLayoutChanged_def)

text \<open>
  Claim C3. Switching adaptive layout off, on an editor whose flag is set and whose
  adaptive-layout action exists, returns with the flag cleared, the action unchecked,
  the current orientation set to the default orientation of the editor, and one
  orientation-changed notification carrying that default appended; nothing is asked of
  the orientation before the call, so this also holds when it already is the default.
  (Without the action the call dereferences a null pointer after clearing the flag.)
\<close>

theorem disabling_resets_orientation:
  assumes "m_isAdaptiveLayoutEnabled ed" and "m_pActionAdaptiveLayout ed = Some a"
  shows "SetAdaptiveLayoutEnabled False ed =
           Inr (ed\<lparr>m_pActionAdaptiveLayout := Some (a\<lparr>checked := False\<rparr>),
                    m_isAdaptiveLayoutEnabled := False,
                    m_currentOrientation := GetDefaultOrientation ed,
                    signalAdaptiveLayoutChanged :=
                      signalAdaptiveLayoutChanged ed @ [GetDefaultOrientation ed]\<rparr>)"
  using assms
  by (simp add: SetAdaptiveLayoutEnabled_def UpdateAdaptiveLayout_def OnAdaptiveLayoutChanged_def
      IsAdaptiveLayoutEnabled_def setChecked_def Let_def)

theorem disabling_resets_orientation_witness:
  "m_isAdaptiveLayoutEnabled sampleEditor
   \<and> m_pActionAdaptiveLayout sampleEditor
        = Some \<lparr>command = ''editor.toggle_adaptive_layout'', checked = True\<rparr>
   \<and> m_currentOrientation sampleEditor = GetDefaultOrientation sampleEditor
   \<and> SetAdaptiveLayoutEnabled False sampleEditor =
        Inr (sampleEditor
              \<lparr>m_pActionAdaptiveLayout :=
                 Some \<lparr>command = ''editor.toggle_adaptive_layout'', checked = False\<rparr>,
               m_isAdaptiveLayoutEnabled := False,
               m_currentOrientation := Horizontal,
               signalAdaptiveLayoutChanged := [Horizontal]\<rparr>)"
proof -
  have flag: "m_isAdaptiveLayoutEnabled sampleEditor"
    by (simp add: sampleEditor_def)
  have action: "m_pActionAdaptiveLayout sampleEditor
        = Some \<lparr>command = ''editor.toggle_adaptive_layout'', checked = True\<rparr>"
    by (simp add: sampleEditor_def)
  have rest: "m_currentOrientation sampleEditor = GetDefaultOrientation sampleEditor"
    "GetDefaultOrientation sampleEditor = Horizontal"
    "signalAdaptiveLayoutChanged sampleEditor = []"
    by (simp_all add: sampleEditor_def)
  show ?thesis
    using flag action disabling_resets_orientation [OF flag action] rest by simp
qed

lemma resize_from_vertical:
  assumes "IsAdaptiveLayoutEnabled ed" and "m_currentOrientation ed = Vertical"
  shows "signalAdaptiveLayoutChanged (resize 200 100 ed) =
           signalAdaptiveLayoutChanged ed @ [Horizontal]"
  using assms
  by (simp add: resize_def resizeEvent_def UpdateAdaptiveLayout_def OnAdaptiveLayoutChanged_def
      IsAdaptiveLayoutEnabled_def Let_def)

text \<open>
  Claim C4. With adaptive layout enabled, a resize event to \<open>w\<close> by \<open>h\<close> appends one
  notification, carrying the orientation computed from \<open>w\<close> and \<open>h\<close>, when that
  orientation differs from the current one, and appends nothing when it is the same.
  In particular, once the container has been resized to 100 by 200, the resize to
  200 by 100 appends exactly the notification \<open>Horizontal\<close>, and a further resize to
  200 by 100 appends nothing.
\<close>

theorem resize_notifies_iff_orientation_differs:
  assumes "IsAdaptiveLayoutEnabled ed"
  shows "signalAdaptiveLayoutChanged (resize w h ed) =
           signalAdaptiveLayoutChanged ed @
             (if (if w > h then Horizontal else Vertical) \<noteq> m_currentOrientation ed
              then [if w > h then Horizontal else Vertical] else [])
       \<and> signalAdaptiveLayoutChanged (resize 200 100 (resize 100 200 ed)) =
           signalAdaptiveLayoutChanged (resize 100 200 ed) @ [Horizontal]
       \<and> signalAdaptiveLayoutChanged (resize 200 100 (resize 200 100 (resize 100 200 ed))) =
           signalAdaptiveLayoutChanged (resize 200 100 (resize 100 200 ed))"
  using assms
  by (simp add: resize_def resizeEvent_def UpdateAdaptiveLayout_def OnAdaptiveLayoutChanged_def
      IsAdaptiveLayoutEnabled_def Let_def)

theorem resize_notifies_iff_orientation_differs_witness:
  "IsAdaptiveLayoutEnabled sampleEditor
   \<and> signalAdaptiveLayoutChanged (resize 100 200 sampleEditor) = [Vertical]
   \<and> signalAdaptiveLayoutChanged (resize 200 100 (resize 100 200 sampleEditor))
        = [Vertical, Horizontal]
   \<and> signalAdaptiveLayoutChanged (resize 200 100 (resize 200 100 (resize 100 200 sampleEditor)))
        = [Vertical, Horizontal]"
proof -
  have enabled: "IsAdaptiveLayoutEnabled sampleEditor"
    by (simp add: IsAdaptiveLayoutEnabled_def sampleEditor_def)
  have start: "m_currentOrientation sampleEditor = Horizontal"
    "signalAdaptiveLayoutChanged sampleEditor = []"
    by (simp_all add: sampleEditor_def)
  show ?thesis
    using enabled start
      resize_notifies_iff_orientation_differs [OF enabled, where w = 100 and h = 200]
    by simp
qed

text \<open>
  Claim C5. With adaptive layout enabled, after \<open>UpdateAdaptiveLayout\<close> in a container
  of width \<open>w\<close> and height \<open>h\<close> the orientation is \<open>Horizontal\<close> if \<open>w > h\<close> and
  \<open>Vertical\<close> otherwise; for equal width and height it is \<open>Vertical\<close>.
\<close>

theorem computed_orientation:
  assumes "IsAdaptiveLayoutEnabled ed"
  shows "m_currentOrientation (UpdateAdaptiveLayout (ed\<lparr>width := w, height := h\<rparr>))
           = (if w > h then Horizontal else Vertical)
       \<and> m_currentOrientation (UpdateAdaptiveLayout (ed\<lparr>width := w, height := w\<rparr>)) = Vertical"
  using assms
  by (auto simp add: UpdateAdaptiveLayout_def OnAdaptiveLayoutChanged_def
      IsAdaptiveLayoutEnabled_def Let_def)

theorem computed_orientation_witness:
  "IsAdaptiveLayoutEnabled sampleEditor
   \<and> m_currentOrientation (UpdateAdaptiveLayout (sampleEditor\<lparr>width := 300, height := 200\<rparr>))
        = Horizontal
   \<and> m_currentOrientation (UpdateAdaptiveLayout (sampleEditor\<lparr>width := 300, height := 300\<rparr>))
        = Vertical"
proof -
  have enabled: "IsAdaptiveLayoutEnabled sampleEditor"
    by (simp add: IsAdaptiveLayoutEnabled_def sampleEditor_def)
  show ?thesis
    using enabled computed_orientation [OF enabled, where w = 300 and h = 200]
    by simp
qed

text \<open>
  Claim C10. \<open>SetAdaptiveLayoutEnabled\<close> called with the value the flag already has
  returns the editor as it was: flag, current orientation, checked state of the action
  and the list of emitted notifications are all unchanged.
\<close>

theorem SetAdaptiveLayoutEnabled_same_value:
  "SetAdaptiveLayoutEnabled (m_isAdaptiveLayoutEnabled ed) ed = Inr ed"
  by (simp add: SetAdaptiveLayoutEnabled_def)

theorem SetAdaptiveLayoutEnabled_same_value_witness:
  "m_isAdaptiveLayoutEnabled sampleEditor = True
   \<and> SetAdaptiveLayoutEnabled True sampleEditor = Inr sampleEditor"
proof -
  have flag: "m_isAdaptiveLayoutEnabled sampleEditor = True"
    by (simp add: sampleEditor_def)
  show ?thesis
    using flag SetAdaptiveLayoutEnabled_same_value [of sampleEditor] by simp
qed

section \<open>Layout state: missing keys and the round trip\<close>

text \<open>
  A layout state without the key \<open>adaptiveLayout\<close> leaves the flag, the action, the
  orientation and the notifications as they were; one without \<open>dockingState\<close> leaves
  the docking registry as it was.
\<close>

lemma SetLayout_missing_adaptiveLayout:
  assumes "\<not> contains state ''adaptiveLayout''" and "SetLayout state ed = Inr ed'"
  shows "m_isAdaptiveLayoutEnabled ed' = m_isAdaptiveLayoutEnabled ed
       \<and> m_pActionAdaptiveLayout ed' = m_pActionAdaptiveLayout ed
       \<and> m_currentOrientation ed' = m_currentOrientation ed
       \<and> signalAdaptiveLayoutChanged ed' = signalAdaptiveLayoutChanged ed"
  using assms
  by (auto simp add: SetLayout_def Let_def split: option.splits if_splits)

lemma SetLayout_missing_dockingState:
  assumes "\<not> contains state ''dockingState''" and "SetLayout state ed = Inr ed'"
  shows "m_dockingRegistry ed' = m_dockingRegistry ed"
  using assms
  by (auto simp add: SetLayout_def SetAdaptiveLayoutEnabled_def UpdateAdaptiveLayout_def
      OnAdaptiveLayoutChanged_def Let_def split: option.splits if_splits sum.splits)

text \<open>
  The key \<open>editorContent\<close> has no such guard: a layout state without it is restored
  exactly as the same state with an empty \<open>editorContent\<close> map.
\<close>

lemma SetLayout_missing_editorContent:
  assumes "\<not> contains state ''editorContent''"
  shows "SetLayout state ed = SetLayout (fmupd ''editorContent'' (VMap fmempty) state) ed"
proof -
  let ?state' = "fmupd ''editorContent'' (VMap fmempty) state"
  have other: "contains ?state' k = contains state k \<and> value_at ?state' k = value_at state k"
    if "k \<noteq> ''editorContent''" for k
    using that by (simp add: contains_def value_at_def)
  have this_key:
    "toMap (value_at ?state' ''editorContent'') = toMap (value_at state ''editorContent'')"
    using assms by (simp add: contains_def value_at_def)
  show ?thesis
    unfolding SetLayout_def by (simp only: other this_key list.inject char.inject simp_thms)
qed

text \<open>
  Claim C6. The claim asks that a missing \<open>editorContent\<close> key leave the editor
  content state unchanged. On the sample editor with a content state of one entry,
  restoring the empty layout state (which has no \<open>editorContent\<close> key) returns with
  the content state replaced by the empty map.
\<close>

theorem SetLayout_missing_editorContent_resets:
  "\<not> contains fmempty ''editorContent''
   \<and> SetLayout fmempty
        (sampleEditor\<lparr>m_pEditorContent :=
           Some \<lparr>contentState = fmupd ''toolbars'' (VString ''locked'') fmempty,
                 content = NoContent\<rparr>\<rparr>)
       = Inr (sampleEditor\<lparr>m_pEditorContent :=
                Some \<lparr>contentState = fmempty, content = NoContent\<rparr>\<rparr>)
   \<and> fmupd ''toolbars'' (VString ''locked'') fmempty \<noteq> (fmempty :: QVariantMap)"
  by (simp add: SetLayout_def contains_def value_at_def sampleEditor_def
      CEditorContent_SetState_def)

lemma SetAdaptiveLayoutEnabled_True:
  assumes "m_isAdaptiveLayoutEnabled ed \<or> m_pActionAdaptiveLayout ed \<noteq> None"
  shows "\<exists>ed'. SetAdaptiveLayoutEnabled True ed = Inr ed'
            \<and> m_isAdaptiveLayoutEnabled ed'
            \<and> m_dockingRegistry ed' = m_dockingRegistry ed
            \<and> m_pEditorContent ed' = m_pEditorContent ed"
  using assms
  by (auto simp add: SetAdaptiveLayoutEnabled_def UpdateAdaptiveLayout_def
      OnAdaptiveLayoutChanged_def Let_def)

text \<open>
  Claim C7, as stated, fails on an editor without a docking system: restoring the
  sample layout on the sample editor and saving it again gives a map with
  \<open>adaptiveLayout\<close> and \<open>editorContent\<close> only; the \<open>dockingState\<close> that was set is
  not in it.
\<close>

theorem SetLayout_GetLayout_counterexample:
  "SetLayout_GetLayout sampleLayout sampleEditor =
     Inr (fmupd ''adaptiveLayout'' (VBool True) (fmupd ''editorContent'' (VMap fmempty) fmempty))
   \<and> fmlookup (fmupd ''adaptiveLayout'' (VBool True) (fmupd ''editorContent'' (VMap fmempty) fmempty))
        ''dockingState'' = None
   \<and> fmlookup sampleLayout ''dockingState'' = Some (VMap fmempty)"
  by (simp add: SetLayout_GetLayout_def SetLayout_def GetLayout_def sampleLayout_def
      sampleEditor_def SetAdaptiveLayoutEnabled_def
      contains_def value_at_def insert_value_def CEditorContent_SetState_def
      CEditorContent_GetState_def Let_def)

text \<open>
  Claim C7, amended. On an editor that has its content object, and whose
  adaptive-layout flag is set or whose adaptive-layout action exists, restoring the
  sample layout and saving the layout again returns: with a docking registry, exactly
  the sample layout (\<open>adaptiveLayout\<close> true, \<open>dockingState\<close> and \<open>editorContent\<close>
  the empty maps that were set); without a docking registry, the sample layout without
  its \<open>dockingState\<close> key.
\<close>

theorem SetLayout_GetLayout_round_trip:
  assumes "m_pEditorContent ed = Some c"
    and "m_isAdaptiveLayoutEnabled ed \<or> m_pActionAdaptiveLayout ed \<noteq> None"
  shows "SetLayout_GetLayout sampleLayout ed =
           Inr (case m_dockingRegistry ed of
                  Some d \<Rightarrow> sampleLayout
                | None \<Rightarrow> fmdrop ''dockingState'' sampleLayout)"
proof -
  from SetAdaptiveLayoutEnabled_True [OF assms(2)] obtain ed1 where
    ed1: "SetAdaptiveLayoutEnabled True ed = Inr ed1" "m_isAdaptiveLayoutEnabled ed1"
      "m_dockingRegistry ed1 = m_dockingRegistry ed" "m_pEditorContent ed1 = m_pEditorContent ed"
    by blast
  show ?thesis
  proof (cases "m_dockingRegistry ed")
    case None
    with ed1 assms(1) have "SetLayout_GetLayout sampleLayout ed =
        Inr (fmupd ''adaptiveLayout'' (VBool True) (fmupd ''editorContent'' (VMap fmempty) fmempty))"
      by (simp add: SetLayout_GetLayout_def SetLayout_def GetLayout_def sampleLayout_def
          contains_def value_at_def insert_value_def CEditorContent_SetState_def
          CEditorContent_GetState_def Let_def)
    moreover have "fmdrop ''dockingState'' sampleLayout =
        fmupd ''adaptiveLayout'' (VBool True) (fmupd ''editorContent'' (VMap fmempty) fmempty)"
      unfolding sampleLayout_def by (rule fmap_ext) simp
    ultimately show ?thesis using None by simp
  next
    case (Some d)
    with ed1 assms(1) have "SetLayout_GetLayout sampleLayout ed =
        Inr (fmupd ''adaptiveLayout'' (VBool True) (fmupd ''editorContent'' (VMap fmempty)
              (fmupd ''dockingState'' (VMap fmempty) fmempty)))"
      by (simp add: SetLayout_GetLayout_def SetLayout_def GetLayout_def sampleLayout_def
          contains_def value_at_def insert_value_def CEditorContent_SetState_def
          CEditorContent_GetState_def CDockableContainer_SetState_def
          CDockableContainer_GetState_def Let_def)
    then show ?thesis using Some by (simp add: sampleLayout_def)
  qed
qed

theorem SetLayout_GetLayout_round_trip_witness:
  "m_pEditorContent
     (sampleEditor\<lparr>m_dockingRegistry :=
        Some (CDockableContainer_new (fmupd ''panels'' (VStringList [''Viewport'']) fmempty)),
        m_isAdaptiveLayoutEnabled := False\<rparr>)
     = Some \<lparr>contentState = fmempty, content = NoContent\<rparr>
   \<and> m_pActionAdaptiveLayout
       (sampleEditor\<lparr>m_dockingRegistry :=
          Some (CDockableContainer_new (fmupd ''panels'' (VStringList [''Viewport'']) fmempty)),
          m_isAdaptiveLayoutEnabled := False\<rparr>) \<noteq> None
   \<and> SetLayout_GetLayout sampleLayout
       (sampleEditor\<lparr>m_dockingRegistry :=
          Some (CDockableContainer_new (fmupd ''panels'' (VStringList [''Viewport'']) fmempty)),
          m_isAdaptiveLayoutEnabled := False\<rparr>)
     = Inr sampleLayout"
proof -
  let ?ed = "sampleEditor\<lparr>m_dockingRegistry :=
          Some (CDockableContainer_new (fmupd ''panels'' (VStringList [''Viewport'']) fmempty)),
          m_isAdaptiveLayoutEnabled := False\<rparr>"
  have content: "m_pEditorContent ?ed = Some \<lparr>contentState = fmempty, content = NoContent\<rparr>"
    by (simp add: sampleEditor_def)
  have action: "m_pActionAdaptiveLayout ?ed \<noteq> None"
    by (simp add: sampleEditor_def)
  have returns: "m_isAdaptiveLayoutEnabled ?ed \<or> m_pActionAdaptiveLayout ?ed \<noteq> None"
    using action by simp
  show ?thesis
    using content action SetLayout_GetLayout_round_trip [OF content returns] by simp
qed

section \<open>Menus of items that are not menus\<close>

text \<open>
  Claim C8. On an editor that has its menu descriptor, for every item whose descriptor
  entry is not a menu node (an action node, or no entry at all), \<open>GetMenuName\<close> is the
  empty string and \<open>GetMenu\<close> returns null, without an error.
\<close>

theorem GetMenu_not_a_menu:
  assumes "m_pMenuDesc ed = Some desc" and "\<not> IsMenu (FindItems menuItem desc)"
  shows "GetMenuName desc menuItem = '''' \<and> GetMenu menuItem ed = Inr None"
proof -
  have name: "GetMenuName desc menuItem = ''''"
  proof (cases "FindItems menuItem desc")
    case None
    then show ?thesis by simp
  next
    case (Some entry)
    with assms(2) show ?thesis by (cases entry) simp_all
  qed
  with assms(1) show ?thesis by (simp add: GetMenu_def del: GetMenuName.simps)
qed

theorem GetMenu_not_a_menu_witness:
  "m_pMenuDesc sampleEditor = Some (InitMenuDesc 1000)
   \<and> \<not> IsMenu (FindItems Save (InitMenuDesc 1000))
   \<and> GetMenuName (InitMenuDesc 1000) Save = ''''
   \<and> GetMenu Save sampleEditor = Inr None"
proof -
  have desc: "m_pMenuDesc sampleEditor = Some (InitMenuDesc 1000)"
    by (simp add: sampleEditor_def)
  have entry: "\<not> IsMenu (FindItems Save (InitMenuDesc 1000))"
    by (simp add: InitMenuDesc_def)
  show ?thesis
    using desc entry GetMenu_not_a_menu [OF desc entry] by simp
qed

text \<open>
  In the descriptor that \<open>InitMenuDesc\<close> builds, every item other than the seven menus
  has the empty menu name; a menu item has its name, and its menu is found when it was
  added to the abstract menu.
\<close>

lemma InitMenuDesc_actions_have_no_menu_name:
  "item \<notin> {FileMenu, RecentFiles, EditMenu, ViewMenu, ToolBarMenu, WindowMenu, HelpMenu}
     \<Longrightarrow> GetMenuName (InitMenuDesc p) item = ''''"
  by (cases item) (simp_all add: InitMenuDesc_def)

lemma GetMenu_of_a_menu:
  "GetMenu HelpMenu sampleEditor = Inr (Some (AbstractMenu ''Help'' [] [''general.help'']))"
  by (simp add: GetMenu_def sampleEditor_def InitMenuDesc_def)

section \<open>Enabling the docking system twice\<close>

text \<open>
  Claim C9. When the docking registry exists, \<open>EnableDockingSystem\<close> returns the editor
  as it was (registry, menu and content included); and after a call that returned, a
  further call changes nothing.
\<close>

theorem EnableDockingSystem_idempotent:
  "(m_dockingRegistry ed \<noteq> None \<longrightarrow> EnableDockingSystem AddItem ed = Inr ed)
   \<and> (EnableDockingSystem AddItem ed = Inr ed' \<longrightarrow> EnableDockingSystem AddItem ed' = Inr ed')"
proof -
  have again: "EnableDockingSystem AddItem e = Inr e" if "m_dockingRegistry e \<noteq> None" for e
    using that by (simp add: EnableDockingSystem_def)
  have "m_dockingRegistry ed' \<noteq> None" if "EnableDockingSystem AddItem ed = Inr ed'"
    using that
    by (auto simp add: EnableDockingSystem_def SetContent_def Let_def
        split: if_splits sum.splits option.splits)
  with again show ?thesis by blast
qed

theorem EnableDockingSystem_idempotent_witness:
  "EnableDockingSystem sampleAddItem sampleEditor = Inr dockedEditor
   \<and> m_dockingRegistry dockedEditor \<noteq> None
   \<and> EnableDockingSystem sampleAddItem dockedEditor = Inr dockedEditor"
proof -
  have first: "EnableDockingSystem sampleAddItem sampleEditor = Inr dockedEditor"
    by (simp add: EnableDockingSystem_def AddToMenu_def GetMenu_def SetContent_def
        GetProperty_def CDockableContainer_new_def SetDefaultLayoutCallback_def SetMenu_def
        CEditorContent_SetContent_def sampleEditor_def dockedEditor_def sampleAddItem_def
        InitMenuDesc_def Let_def)
  have registry: "m_dockingRegistry dockedEditor \<noteq> None"
    by (simp add: dockedEditor_def)
  show ?thesis
    using first registry
      EnableDockingSystem_idempotent
        [where ed = sampleEditor and AddItem = sampleAddItem and ed' = dockedEditor]
      EnableDockingSystem_idempotent
        [where ed = dockedEditor and AddItem = sampleAddItem and ed' = dockedEditor]
    by blast
qed


end
